theory Spec2Isabelle
  imports Complex_Main "HOL-Library.Product_Lexorder"
begin

section \<open>Field-aided RRT*: data model\<close>

text \<open>
  The planner of \<^verbatim>\<open>src/farrt\<close> is one Python object: \<^verbatim>\<open>FARRTStar2\<close> extends
  \<^verbatim>\<open>RRTStar\<close>, which extends \<^verbatim>\<open>PartiallyObservablePlanner\<close>. Its fields become one
  record, its methods functions from the record to a result that carries the record
  back, also when the method raises: a Python exception leaves every mutation made
  before it in place.

  Coordinates and costs are Python floats; they are modelled as reals, and no
  statement below depends on rounding.
\<close>

type_synonym vertex = "real \<times> real"

datatype py_error =
  TypeError | AttributeError | KeyError | ValueError | AssertionError | IndexError | Empty

datatype ('a, 's) result = Return 'a 's | Raise py_error 's

record planner =
  rrt_tree :: "vertex set"
  rrt_vertices :: "vertex set"
  rrt_edges :: "(vertex \<times> vertex) set"
  child_to_parent_map :: "vertex \<rightharpoonup> vertex"
  parent_to_children_map :: "vertex \<rightharpoonup> vertex set"
  cost_to_reach :: "vertex \<rightharpoonup> real"
  rewiringPQ :: "(real \<times> vertex) list"
  queue_key_map :: "vertex \<rightharpoonup> real"
  potential_field :: "nat \<Rightarrow> nat \<Rightarrow> nat \<Rightarrow> real"
  world_dims :: "nat \<times> nat"
  x_goal_pt :: vertex
  curr_pos :: vertex
  iters :: int
  obstacle_avoidance_radius :: real
  goal_reached_thresh :: real
  built_tree :: bool

text \<open>\<^verbatim>\<open>Point.distance\<close>: the Euclidean distance of two points.\<close>

definition distance :: "vertex \<Rightarrow> vertex \<Rightarrow> real" where
  "distance a b = sqrt ((fst a - fst b)\<^sup>2 + (snd a - snd b)\<^sup>2)"

subsection \<open>\<^verbatim>\<open>RRTStar.reached_goal\<close>\<close>

text \<open>
  Both keyword arguments default to \<^verbatim>\<open>None\<close> and are then replaced by the planner's
  own goal and threshold. The comparison on the last line reads
  \<^verbatim>\<open>self.goal_reached_thresh\<close>, not the local \<^verbatim>\<open>threshold\<close>.
\<close>

definition reached_goal :: "planner \<Rightarrow> vertex \<Rightarrow> vertex option \<Rightarrow> real option \<Rightarrow> bool" where
  "reached_goal s x_new goal threshold =
     (let goal' = (case goal of None \<Rightarrow> x_goal_pt s | Some g \<Rightarrow> g);
          threshold' = (case threshold of None \<Rightarrow> goal_reached_thresh s | Some t \<Rightarrow> t)
      in distance x_new goal' < goal_reached_thresh s)"

subsection \<open>Attribute lookup and argument binding\<close>

text \<open>
  Every method that the three classes define, in the order of the sources. A call
  \<^verbatim>\<open>self.m(...)\<close> first looks \<^verbatim>\<open>m\<close> up along the class hierarchy and raises
  \<^verbatim>\<open>AttributeError\<close> when no class defines it. Neither \<^verbatim>\<open>get_cost_to_goal\<close> nor
  \<^verbatim>\<open>set_cost_to_goal\<close> is in the list.
\<close>

definition planner_methods :: "string list" where
  "planner_methods =
     [''__init__'', ''default_run_count'', ''observe_world'', ''update_plan'',
      ''handle_new_obstacles'', ''handle_deleted_obstacles'', ''step_through_plan'', ''run'',
      ''get_render_kwargs'', ''tmp_img_path'', ''render'', ''save_gif'', ''delete_tmps'',
      ''do_first_plan'', ''replan'', ''sample_free'', ''find_nearest'', ''steer'',
      ''edge_obstacle_free'', ''find_nearby_pts'', ''get_min_cost_point'', ''add_start_vertex'',
      ''add_vertex'', ''reassign_parent'', ''do_rrtstar_rewiring'', ''reached_goal'',
      ''build_rrt_tree'', ''extract_path'', ''get_parent'', ''get_children'',
      ''set_child_parent'', ''get_cost_to_reach'', ''set_cost_to_reach'', ''get_edge_cost'',
      ''setup_planner'', ''sever_connections'', ''do_tree_severing'', ''update_potential_field'',
      ''merge_points'', ''apply_field_to_pt'', ''do_farrt_rewiring'', ''verify_queue'',
      ''get_key'', ''test_key_less'', ''insertPQ'', ''updatePQ'', ''popPQ'', ''queue_not_empty'']"

text \<open>
  \<^verbatim>\<open>def find_nearest(self, x_rand: Point)\<close>: one parameter after \<^verbatim>\<open>self\<close>, no default,
  no \<^verbatim>\<open>*args\<close> and no \<^verbatim>\<open>**kwargs\<close>.
\<close>

definition find_nearest_params :: "string list" where
  "find_nearest_params = [''x_rand'']"

text \<open>
  Binding a call with \<open>npos\<close> positional arguments and the keyword arguments \<open>kws\<close>
  against such a parameter list: every parameter is given exactly once and no
  keyword is foreign to the list; otherwise Python raises \<^verbatim>\<open>TypeError\<close>.
\<close>

definition bind_call :: "string list \<Rightarrow> nat \<Rightarrow> string list \<Rightarrow> py_error option" where
  "bind_call params npos kws =
     (if npos \<le> length params \<and> distinct kws \<and> set kws = set (drop npos params)
      then None else Some TypeError)"

subsection \<open>The tree store of \<^verbatim>\<open>RRTStar\<close>\<close>

text \<open>
  \<^verbatim>\<open>get_parent\<close> raises \<^verbatim>\<open>ValueError\<close> for a vertex without an entry unless
  \<^verbatim>\<open>allow_none\<close> is set (the rendering that precedes the \<^verbatim>\<open>raise\<close> draws a
  picture and is left out). An entry is returned as a point of its own,
  \<^verbatim>\<open>Point(parent)\<close>, with the coordinates of the stored pair.
\<close>

definition get_parent :: "planner \<Rightarrow> vertex \<Rightarrow> bool \<Rightarrow> (vertex option, planner) result" where
  "get_parent s point allow_none =
     (case child_to_parent_map s point of
        None \<Rightarrow> if allow_none then Return None s else Raise ValueError s
      | Some parent \<Rightarrow> Return (Some parent) s)"

text \<open>
  \<^verbatim>\<open>parent_to_children_map\<close> is a \<^verbatim>\<open>defaultdict(set)\<close>: reading a missing key stores
  the empty set under it. Membership (\<^verbatim>\<open>in\<close>) does not.
\<close>

definition get_children :: "planner \<Rightarrow> vertex \<Rightarrow> vertex set \<times> planner" where
  "get_children s point =
     (case parent_to_children_map s point of
        None \<Rightarrow> ({}, s\<lparr>parent_to_children_map := (parent_to_children_map s)(point \<mapsto> {})\<rparr>)
      | Some cs \<Rightarrow> (cs, s))"

text \<open>
  Modelled from the spec: \<^verbatim>\<open>farrt/utils.py\<close> (\<^verbatim>\<open>pt2tuple\<close>, \<^verbatim>\<open>as_point\<close>,
  \<^verbatim>\<open>multipoint_without\<close>) is not among the sources. The spec makes a point a pair
  \<open>(x, y)\<close> and every tree key an exact coordinate pair, so \<^verbatim>\<open>pt2tuple\<close> and
  \<^verbatim>\<open>as_point\<close> are the identity on vertices and \<^verbatim>\<open>multipoint_without\<close> is set
  difference. \<^verbatim>\<open>None\<close> has no coordinates: \<^verbatim>\<open>pt2tuple(None)\<close> raises.
\<close>

definition pt2tuple :: "vertex option \<Rightarrow> py_error + vertex" where
  "pt2tuple pt = (case pt of None \<Rightarrow> Inl AttributeError | Some v \<Rightarrow> Inr v)"

text \<open>
  \<^verbatim>\<open>set_child_parent\<close>. The test before \<^verbatim>\<open>del\<close> reads
  \<^verbatim>\<open>child in self.parent_to_children_map\<close>: it asks whether the child is a key of the
  parent-to-children map.
\<close>

definition set_child_parent :: "planner \<Rightarrow> vertex \<Rightarrow> vertex option \<Rightarrow> (unit, planner) result" where
  "set_child_parent s child parent =
     (case get_parent s child True of
        Raise e s' \<Rightarrow> Raise e s'
      | Return old_parent s' \<Rightarrow>
          (let s1 = (case old_parent of
                       None \<Rightarrow> s'
                     | Some op \<Rightarrow>
                         (let (cs, s'') = get_children s' op
                          in s''\<lparr>parent_to_children_map :=
                                  (parent_to_children_map s'')(op \<mapsto> cs - {child})\<rparr>))
           in if parent = None \<and> child \<in> dom (parent_to_children_map s1)
              then (if child \<in> dom (child_to_parent_map s1)
                    then Return () (s1\<lparr>child_to_parent_map := (child_to_parent_map s1)(child := None)\<rparr>)
                    else Raise KeyError s1)
              else (case pt2tuple parent of
                      Inl e \<Rightarrow> Raise e s1
                    | Inr p \<Rightarrow>
                        (let s2 = s1\<lparr>child_to_parent_map := (child_to_parent_map s1)(child \<mapsto> p)\<rparr>;
                             (cs, s3) = get_children s2 p
                         in Return () (s3\<lparr>parent_to_children_map :=
                                            (parent_to_children_map s3)(p \<mapsto> insert child cs)\<rparr>)))))"

definition set_cost_to_reach :: "planner \<Rightarrow> vertex \<Rightarrow> real \<Rightarrow> planner" where
  "set_cost_to_reach s point cost = s\<lparr>cost_to_reach := (cost_to_reach s)(point \<mapsto> cost)\<rparr>"

definition add_start_vertex :: "planner \<Rightarrow> vertex \<Rightarrow> planner" where
  "add_start_vertex s x_start =
     set_cost_to_reach
       (s\<lparr>rrt_tree := rrt_tree s \<union> {x_start}, rrt_vertices := insert x_start (rrt_vertices s)\<rparr>)
       x_start 0"

definition add_vertex :: "planner \<Rightarrow> vertex \<Rightarrow> vertex \<Rightarrow> real \<Rightarrow> (unit, planner) result" where
  "add_vertex s pt parent cost =
     (let s1 = s\<lparr>rrt_tree := rrt_tree s \<union> {pt},
                 rrt_vertices := insert pt (rrt_vertices s),
                 rrt_edges := insert (parent, pt) (rrt_edges s)\<rparr>
      in case set_child_parent s1 pt (Some parent) of
           Raise e s' \<Rightarrow> Raise e s'
         | Return _ s' \<Rightarrow> Return () (set_cost_to_reach s' pt cost))"

text \<open>
  \<^verbatim>\<open>reassign_parent\<close>: \<^verbatim>\<open>get_parent\<close> without \<^verbatim>\<open>allow_none\<close> raises for a vertex
  that has no parent; the same parent is refused unless \<^verbatim>\<open>allow_same_parent\<close>; the
  \<^verbatim>\<open>assert\<close> checks that the old parent has lost the child.
\<close>

definition reassign_parent ::
  "planner \<Rightarrow> vertex \<Rightarrow> vertex \<Rightarrow> real \<Rightarrow> bool \<Rightarrow> (unit, planner) result" where
  "reassign_parent s pt parent cost allow_same_parent =
     (case get_parent s pt False of
        Raise e s' \<Rightarrow> Raise e s'
      | Return None s' \<Rightarrow> Raise ValueError s'
      | Return (Some prev_parent) s' \<Rightarrow>
          if prev_parent = parent
          then (if allow_same_parent then Return () s' else Raise ValueError s')
          else
            (let s1 = s'\<lparr>rrt_edges :=
                          insert (parent, pt) (rrt_edges s' - {(prev_parent, pt)} - {(pt, prev_parent)})\<rparr>
             in case set_child_parent s1 pt (Some parent) of
                  Raise e s2 \<Rightarrow> Raise e s2
                | Return _ s2 \<Rightarrow>
                    (let (cs, s3) = get_children s2 prev_parent
                     in if pt \<in> cs then Raise AssertionError s3
                        else Return () (set_cost_to_reach s3 pt cost))))"

subsection \<open>\<^verbatim>\<open>FARRTStar2.sever_connections\<close>\<close>

text \<open>
  The loop over \<^verbatim>\<open>list(self.get_children(pt))\<close>: the list is a snapshot, taken before
  the loop changes the set. The order in which Python iterates a set is not fixed by
  the language; the model takes the children in increasing order.
\<close>

fun sever_children :: "planner \<Rightarrow> vertex \<Rightarrow> vertex list \<Rightarrow> (unit, planner) result" where
  "sever_children s vtx [] = Return () s"
| "sever_children s vtx (other # rest) =
     (case set_child_parent (s\<lparr>rrt_edges := rrt_edges s - {(vtx, other)} - {(other, vtx)}\<rparr>)
             other None of
        Raise e s' \<Rightarrow> Raise e s'
      | Return _ s' \<Rightarrow> sever_children s' vtx rest)"

text \<open>
  The last statement calls \<^verbatim>\<open>self.set_cost_to_goal(pt, float('inf'))\<close>. No class of the
  hierarchy defines \<^verbatim>\<open>set_cost_to_goal\<close> (\<^verbatim>\<open>RRTStar\<close> has \<^verbatim>\<open>set_cost_to_reach\<close>), so
  the attribute lookup is where the method ends.
\<close>

definition sever_connections :: "planner \<Rightarrow> vertex \<Rightarrow> (unit, planner) result" where
  "sever_connections s pt =
     (case get_parent s pt True of
        Raise e s' \<Rightarrow> Raise e s'
      | Return parent s' \<Rightarrow>
          (case (case parent of
                   None \<Rightarrow> Return () s'
                 | Some parent_vtx \<Rightarrow>
                     set_child_parent
                       (s'\<lparr>rrt_edges := rrt_edges s' - {(pt, parent_vtx)} - {(parent_vtx, pt)}\<rparr>)
                       pt None) of
             Raise e s1 \<Rightarrow> Raise e s1
           | Return _ s1 \<Rightarrow>
               (let (children, s2) = get_children s1 pt
                in case sever_children s2 pt (sorted_list_of_set children) of
                     Raise e s3 \<Rightarrow> Raise e s3
                   | Return _ s3 \<Rightarrow>
                       (let s4 = s3\<lparr>rrt_vertices := rrt_vertices s3 - {pt},
                                     rrt_tree := rrt_tree s3 - {pt}\<rparr>
                        in Raise AttributeError s4))))"

subsection \<open>The inconsistency queue of \<^verbatim>\<open>FARRTStar2\<close>\<close>

text \<open>
  \<^verbatim>\<open>get_key\<close> calls \<^verbatim>\<open>self.find_nearest(as_point(pt), pt_source=self.rrt_tree)\<close>: one
  positional and one keyword argument, bound against the parameters of
  \<^verbatim>\<open>RRTStar.find_nearest\<close>. Had the binding succeeded, the next line would look up
  \<^verbatim>\<open>self.get_cost_to_goal\<close>, which no class defines.
\<close>

definition get_key :: "planner \<Rightarrow> vertex \<Rightarrow> (real, planner) result" where
  "get_key s pt =
     (case bind_call find_nearest_params 1 [''pt_source''] of
        Some e \<Rightarrow> Raise e s
      | None \<Rightarrow> Raise AttributeError s)"

definition insertPQ :: "planner \<Rightarrow> vertex \<Rightarrow> (unit, planner) result" where
  "insertPQ s pt =
     (case get_key s pt of
        Raise e s' \<Rightarrow> Raise e s'
      | Return key s' \<Rightarrow>
          if pt \<notin> dom (queue_key_map s')
          then Return () (s'\<lparr>queue_key_map := (queue_key_map s')(pt \<mapsto> key),
                              rewiringPQ := rewiringPQ s' @ [(key, pt)]\<rparr>)
          else Return () s')"

definition updatePQ :: "planner \<Rightarrow> vertex \<Rightarrow> (unit, planner) result" where
  "updatePQ s pt =
     (case get_key s pt of
        Raise e s' \<Rightarrow> Raise e s'
      | Return key s' \<Rightarrow>
          if pt \<in> dom (queue_key_map s')
          then Return () (s'\<lparr>queue_key_map := (queue_key_map s')(pt \<mapsto> key),
                              rewiringPQ := rewiringPQ s' @ [(key, pt)]\<rparr>)
          else Return () s')"

definition verify_queue :: "planner \<Rightarrow> vertex \<Rightarrow> (unit, planner) result" where
  "verify_queue s pt = (if pt \<in> dom (queue_key_map s) then updatePQ s pt else insertPQ s pt)"

text \<open>
  \<^verbatim>\<open>PriorityQueue.get(block=False)\<close> removes and returns the least entry, tuples being
  compared lexicographically, and raises \<^verbatim>\<open>queue.Empty\<close> on an empty queue (the
  result \<open>None\<close> here).
\<close>

definition pq_get :: "(real \<times> vertex) list \<Rightarrow> ((real \<times> vertex) \<times> (real \<times> vertex) list) option" where
  "pq_get q =
     (case q of
        [] \<Rightarrow> None
      | e # es \<Rightarrow> (let m = fold min es e in Some (m, remove1 m q)))"

text \<open>
  What the local variable \<^verbatim>\<open>point\<close> of \<^verbatim>\<open>popPQ\<close> holds: the first \<^verbatim>\<open>get\<close> is unpacked
  into \<^verbatim>\<open>key, point\<close>, so \<^verbatim>\<open>point\<close> is a vertex; the \<^verbatim>\<open>get\<close> inside the loop is
  assigned to \<^verbatim>\<open>point\<close> whole, so \<^verbatim>\<open>point\<close> is then the pair \<^verbatim>\<open>(key, vertex)\<close> and
  \<^verbatim>\<open>key\<close> keeps its first value. The keys of \<^verbatim>\<open>queue_key_map\<close> are pairs of floats; a
  pair of a float and a tuple is equal to none of them.
\<close>

datatype pq_item = Vertex vertex | Entry real vertex

definition key_map_get :: "planner \<Rightarrow> pq_item \<Rightarrow> real option" where
  "key_map_get s point = (case point of Vertex p \<Rightarrow> queue_key_map s p | Entry k p \<Rightarrow> None)"

function popPQ_loop :: "planner \<Rightarrow> real \<Rightarrow> pq_item \<Rightarrow> (pq_item, planner) result" where
  "popPQ_loop s key point =
     (if key_map_get s point = None \<or> key_map_get s point \<noteq> Some key
      then (case pq_get (rewiringPQ s) of
              None \<Rightarrow> Raise Empty s
            | Some (e, q') \<Rightarrow> popPQ_loop (s\<lparr>rewiringPQ := q'\<rparr>) key (Entry (fst e) (snd e)))
      else (case point of
              Vertex p \<Rightarrow> Return point (s\<lparr>queue_key_map := (queue_key_map s)(p := None)\<rparr>)
            | Entry k p \<Rightarrow> Raise KeyError s))"
  by pat_completeness auto
termination
proof (relation "measure (\<lambda>(s, key, point). length (rewiringPQ s))")
  show "wf (measure (\<lambda>(s, key, point). length (rewiringPQ s)))" by simp
next
  fix s :: planner and key :: real and point :: pq_item and x2 e q'
  assume "pq_get (rewiringPQ s) = Some x2" and "(e, q') = x2"
  then have "pq_get (rewiringPQ s) = Some (e, q')" by simp
  then obtain a as where q: "rewiringPQ s = a # as" and q': "q' = remove1 (fold min as a) (a # as)"
    by (auto simp: pq_get_def Let_def split: list.splits)
  have "fold min as a \<in> set (a # as)"
  proof (induction as arbitrary: a)
    case Nil
    show ?case by simp
  next
    case (Cons b bs)
    have "fold min bs (min b a) \<in> set (min b a # bs)" by (rule Cons.IH)
    moreover have "min b a = b \<or> min b a = a" by (simp add: min_def)
    ultimately show ?case by auto
  qed
  then have "length (remove1 (fold min as a) (a # as)) = length (a # as) - 1"
    by (simp only: length_remove1 if_True)
  then have "length q' < length (rewiringPQ s)"
    unfolding q q' by simp
  then show "((s\<lparr>rewiringPQ := q'\<rparr>, key, Entry (fst e) (snd e)), (s, key, point))
               \<in> measure (\<lambda>(s, key, point). length (rewiringPQ s))"
    by simp
qed

definition popPQ :: "planner \<Rightarrow> (pq_item, planner) result" where
  "popPQ s =
     (case pq_get (rewiringPQ s) of
        None \<Rightarrow> Raise Empty s
      | Some ((key, point), q') \<Rightarrow> popPQ_loop (s\<lparr>rewiringPQ := q'\<rparr>) key (Vertex point))"

subsection \<open>Construction with the default keyword arguments\<close>

text \<open>
  \<^verbatim>\<open>PartiallyObservablePlanner.__init__\<close>, \<^verbatim>\<open>RRTStar.__init__\<close> and
  \<^verbatim>\<open>FARRTStar2.__init__\<close> with no keyword argument given: \<^verbatim>\<open>vision_radius\<close> 10,
  \<^verbatim>\<open>steer_distance\<close> a third of it, \<^verbatim>\<open>obstacle_avoidance_radius\<close> two thirds of
  that, \<^verbatim>\<open>iters\<close> 2000 raised to \<^verbatim>\<open>max(self.iters, 5000)\<close>, the default world of
  \<^verbatim>\<open>dims = [90, 90]\<close>, an all-zero potential field.
\<close>

definition init_planner :: "vertex \<Rightarrow> vertex \<Rightarrow> planner" where
  "init_planner start goal =
     \<lparr>rrt_tree = {}, rrt_vertices = {}, rrt_edges = {},
      child_to_parent_map = Map.empty, parent_to_children_map = Map.empty,
      cost_to_reach = Map.empty, rewiringPQ = [], queue_key_map = Map.empty,
      potential_field = (\<lambda>y x k. 0), world_dims = (90, 90),
      x_goal_pt = goal, curr_pos = start, iters = max 2000 5000,
      obstacle_avoidance_radius = (10 / 3) * 2 / 3, goal_reached_thresh = 1,
      built_tree = False\<rparr>"

subsection \<open>\<^verbatim>\<open>RRTStar.sample_free\<close> and \<^verbatim>\<open>RRTStar.build_rrt_tree\<close>\<close>

text \<open>
  The argument that \<^verbatim>\<open>build_rrt_tree\<close> passes to \<^verbatim>\<open>sample_free\<close> in iteration \<open>i\<close>:
  \<^verbatim>\<open>buffer_radius=0 if i > self.iters/2 and final_pt is None else self.obstacle_avoidance_radius\<close>
  (\<^verbatim>\<open>/\<close> is the true division of Python 3).
\<close>

definition build_buffer_radius :: "planner \<Rightarrow> int \<Rightarrow> vertex option \<Rightarrow> real" where
  "build_buffer_radius s i final_pt =
     (if real_of_int i > real_of_int (iters s) / 2 \<and> final_pt = None then 0
      else obstacle_avoidance_radius s)"

text \<open>
  The radius that the rejection loop of \<^verbatim>\<open>sample_free\<close> buffers the sample with: the
  argument, or \<^verbatim>\<open>self.obstacle_avoidance_radius\<close> when the argument is \<^verbatim>\<open>None\<close>.
\<close>

definition sample_free_radius :: "planner \<Rightarrow> real option \<Rightarrow> real" where
  "sample_free_radius s buffer_radius =
     (case buffer_radius of None \<Rightarrow> obstacle_avoidance_radius s | Some r \<Rightarrow> r)"

text \<open>
  \<^verbatim>\<open>final_pt_cost\<close> starts as \<^verbatim>\<open>float('inf')\<close>.
\<close>

datatype cost = Finite real | Infinity

fun cost_less :: "real \<Rightarrow> cost \<Rightarrow> bool" where
  "cost_less c Infinity = True"
| "cost_less c (Finite d) = (c < d)"

text \<open>
  One pass of the loop body up to the goal test draws a sample, finds the nearest
  vertex, steers, tests the edge against the obstacles and, when the edge is free,
  adds \<^verbatim>\<open>x_new\<close> and rewires. Random numbers and the geometry library decide it,
  so it is a parameter: given the iteration, the buffer radius and the planner it
  raises, or returns the planner with \<open>None\<close> (the edge was blocked) or with
  \<^verbatim>\<open>x_new\<close> and \<^verbatim>\<open>min_cost\<close>.
\<close>

type_synonym expansion =
  "int \<Rightarrow> real \<Rightarrow> planner \<Rightarrow> ((vertex \<times> real) option, planner) result"

text \<open>
  The \<^verbatim>\<open>while i < self.iters or final_pt is None\<close> loop. Nothing bounds the number of
  passes, so the model counts them down from a fuel: \<open>None\<close> is a loop still running
  when the fuel is spent. \<^verbatim>\<open>break\<close> leaves the loop with \<^verbatim>\<open>final_pt_cost\<close> as it was.
\<close>

fun build_rrt_loop ::
  "expansion \<Rightarrow> vertex \<Rightarrow> real \<Rightarrow> nat \<Rightarrow> int \<Rightarrow> vertex option \<Rightarrow> cost \<Rightarrow> planner
     \<Rightarrow> (vertex option \<times> cost, planner) result option" where
  "build_rrt_loop expand goal_pt goal_threshold 0 i final_pt final_pt_cost s = None"
| "build_rrt_loop expand goal_pt goal_threshold (Suc fuel) i final_pt final_pt_cost s =
     (if i < iters s \<or> final_pt = None
      then (case expand i (sample_free_radius s (Some (build_buffer_radius s i final_pt))) s of
              Raise e s' \<Rightarrow> Some (Raise e s')
            | Return None s' \<Rightarrow>
                build_rrt_loop expand goal_pt goal_threshold fuel (i + 1) final_pt final_pt_cost s'
            | Return (Some (x_new, min_cost)) s' \<Rightarrow>
                if reached_goal s' x_new (Some goal_pt) (Some goal_threshold)
                then (if built_tree s' then Some (Return (Some x_new, final_pt_cost) s')
                      else if cost_less min_cost final_pt_cost
                      then build_rrt_loop expand goal_pt goal_threshold fuel (i + 1)
                             (Some x_new) (Finite min_cost) s'
                      else build_rrt_loop expand goal_pt goal_threshold fuel (i + 1)
                             final_pt final_pt_cost s')
                else build_rrt_loop expand goal_pt goal_threshold fuel (i + 1)
                       final_pt final_pt_cost s')
      else Some (Return (final_pt, final_pt_cost) s))"

definition build_rrt_tree ::
  "expansion \<Rightarrow> nat \<Rightarrow> planner \<Rightarrow> vertex \<Rightarrow> vertex \<Rightarrow> real option
     \<Rightarrow> (vertex option \<times> cost, planner) result option" where
  "build_rrt_tree expand fuel s root_pt goal_pt goal_threshold =
     (let goal_threshold' =
            (case goal_threshold of None \<Rightarrow> goal_reached_thresh s | Some t \<Rightarrow> t);
          s0 = add_start_vertex (s\<lparr>rrt_tree := {}, rrt_vertices := {}, rrt_edges := {}\<rparr>) root_pt
      in build_rrt_loop expand goal_pt goal_threshold' fuel 0 None Infinity s0)"

subsection \<open>\<^verbatim>\<open>World.make_observations\<close>\<close>

text \<open>
  A polygon is known to the planner through its bounding box and its \<^verbatim>\<open>contains\<close>
  test. The kinds of geometry that an intersection of the geometry library can be.
\<close>

record polygon =
  bounds :: "real \<times> real \<times> real \<times> real"
  contains :: "vertex \<Rightarrow> bool"

datatype geometry =
    Point vertex
  | LineString "vertex list"
  | Polygon polygon
  | MultiPoint "vertex list"
  | MultiLineString "vertex list list"
  | MultiPolygon "polygon list"
  | GeometryCollection "geometry list"

text \<open>
  \<^verbatim>\<open>position.buffer(radius)\<close> and \<^verbatim>\<open>self.obstacles.intersection(circle)\<close> belong to the
  geometry library and are parameters. After the \<^verbatim>\<open>if\<close> and the \<^verbatim>\<open>elif\<close> the method
  ends without a \<^verbatim>\<open>return\<close>: the result is then Python's \<^verbatim>\<open>None\<close>. The \<^verbatim>\<open>elif\<close>
  wraps the polygon as it is; that the library drops an empty polygon from the
  collection it builds is not modelled, and nothing below rests on that branch.
\<close>

definition make_observations ::
  "(vertex \<Rightarrow> real \<Rightarrow> geometry) \<Rightarrow> (geometry \<Rightarrow> geometry \<Rightarrow> geometry)
     \<Rightarrow> geometry \<Rightarrow> vertex \<Rightarrow> real \<Rightarrow> geometry option" where
  "make_observations buffer intersection obstacles position radius =
     (let circle = buffer position radius;
          observation = intersection obstacles circle
      in case observation of
           MultiPolygon ps \<Rightarrow> Some observation
         | Polygon p \<Rightarrow> Some (MultiPolygon [p])
         | _ \<Rightarrow> None)"

subsection \<open>\<^verbatim>\<open>FARRTStar2.update_potential_field\<close>\<close>

text \<open>
  A two-dimensional numpy array is a function of the row and the column, its shape
  being \<^verbatim>\<open>tuple(self.world.dims)\<close>. An index \<open>i\<close> into an axis of length \<open>n\<close> is
  valid from \<open>-n\<close> to \<open>n - 1\<close>, a negative one counting from the end; any other
  raises \<^verbatim>\<open>IndexError\<close>.
\<close>

type_synonym grid = "nat \<Rightarrow> nat \<Rightarrow> real"

definition np_index :: "nat \<Rightarrow> int \<Rightarrow> nat option" where
  "np_index n i =
     (if 0 \<le> i \<and> i < int n then Some (nat i)
      else if - int n \<le> i \<and> i < 0 then Some (nat (i + int n))
      else None)"

text \<open>\<^verbatim>\<open>obstacle_mask[y,x] = 0\<close>\<close>

definition mask_assign :: "nat \<times> nat \<Rightarrow> grid \<Rightarrow> int \<Rightarrow> int \<Rightarrow> py_error + grid" where
  "mask_assign dims obstacle_mask y x =
     (case np_index (fst dims) y of
        None \<Rightarrow> Inl IndexError
      | Some r \<Rightarrow>
          (case np_index (snd dims) x of
             None \<Rightarrow> Inl IndexError
           | Some c \<Rightarrow> Inr (\<lambda>r' c'. if r' = r \<and> c' = c then 0 else obstacle_mask r' c')))"

text \<open>
  The inner loop \<^verbatim>\<open>for y in range(math.floor(miny), math.ceil(maxy)+1)\<close>, the outer
  loop over \<open>x\<close> and the loop over \<^verbatim>\<open>new_obstacles.geoms\<close>.
\<close>

fun mask_column :: "nat \<times> nat \<Rightarrow> polygon \<Rightarrow> int \<Rightarrow> int list \<Rightarrow> grid \<Rightarrow> py_error + grid" where
  "mask_column dims obstacle x [] obstacle_mask = Inr obstacle_mask"
| "mask_column dims obstacle x (y # ys) obstacle_mask =
     (if contains obstacle (real_of_int x, real_of_int y)
      then (case mask_assign dims obstacle_mask y x of
              Inl e \<Rightarrow> Inl e
            | Inr obstacle_mask' \<Rightarrow> mask_column dims obstacle x ys obstacle_mask')
      else mask_column dims obstacle x ys obstacle_mask)"

fun mask_polygon ::
  "nat \<times> nat \<Rightarrow> polygon \<Rightarrow> int list \<Rightarrow> int list \<Rightarrow> grid \<Rightarrow> py_error + grid" where
  "mask_polygon dims obstacle [] ys obstacle_mask = Inr obstacle_mask"
| "mask_polygon dims obstacle (x # xs) ys obstacle_mask =
     (case mask_column dims obstacle x ys obstacle_mask of
        Inl e \<Rightarrow> Inl e
      | Inr obstacle_mask' \<Rightarrow> mask_polygon dims obstacle xs ys obstacle_mask')"

fun mask_obstacles :: "nat \<times> nat \<Rightarrow> polygon list \<Rightarrow> grid \<Rightarrow> py_error + grid" where
  "mask_obstacles dims [] obstacle_mask = Inr obstacle_mask"
| "mask_obstacles dims (obstacle # rest) obstacle_mask =
     (case bounds obstacle of
        (minx, miny, maxx, maxy) \<Rightarrow>
          (case mask_polygon dims obstacle [\<lfloor>minx\<rfloor> .. \<lceil>maxx\<rceil>] [\<lfloor>miny\<rfloor> .. \<lceil>maxy\<rceil>] obstacle_mask of
             Inl e \<Rightarrow> Inl e
           | Inr obstacle_mask' \<Rightarrow> mask_obstacles dims rest obstacle_mask'))"

definition obstacle_value :: real where
  "obstacle_value = 5"

definition blur_sigma :: real where
  "blur_sigma = 3"

text \<open>
  The array that is handed to \<^verbatim>\<open>gaussian_filter\<close>: \<^verbatim>\<open>obstacle_mask*obstacle_value\<close>,
  the mask having started as \<^verbatim>\<open>np.ones\<close>.
\<close>

definition blur_input :: "nat \<times> nat \<Rightarrow> polygon list \<Rightarrow> py_error + grid" where
  "blur_input dims new_obstacles =
     (case mask_obstacles dims new_obstacles (\<lambda>r c. 1) of
        Inl e \<Rightarrow> Inl e
      | Inr obstacle_mask \<Rightarrow> Inr (\<lambda>r c. obstacle_mask r c * obstacle_value))"

text \<open>
  \<^verbatim>\<open>scipy.ndimage.gaussian_filter\<close> and \<^verbatim>\<open>np.gradient\<close> are library functions and
  parameters of the model; both see the shape of the array. The last two
  statements add \<open>dx\<close> to component 0 and \<open>dy\<close> to component 1 of every cell.
  Rendering, under \<^verbatim>\<open>self.gui\<close>, writes image files and no field of the planner.
\<close>

definition update_potential_field ::
  "(real \<Rightarrow> nat \<times> nat \<Rightarrow> grid \<Rightarrow> grid) \<Rightarrow> (nat \<times> nat \<Rightarrow> grid \<Rightarrow> grid \<times> grid)
     \<Rightarrow> planner \<Rightarrow> polygon list \<Rightarrow> (unit, planner) result" where
  "update_potential_field gaussian_filter gradient s new_obstacles =
     (case blur_input (world_dims s) new_obstacles of
        Inl e \<Rightarrow> Raise e s
      | Inr scaled \<Rightarrow>
          (let blurred_mask = gaussian_filter blur_sigma (world_dims s) scaled;
               (dy, dx) = gradient (world_dims s) blurred_mask
           in Return ()
                (s\<lparr>potential_field :=
                     (\<lambda>y x k. if k = 0 then potential_field s y x k + dx y x
                               else if k = 1 then potential_field s y x k + dy y x
                               else potential_field s y x k)\<rparr>)))"

subsection \<open>The invariant of the two parent maps\<close>

text \<open>
  \<open>children[u]\<close> as a reader of the \<^verbatim>\<open>defaultdict\<close> sees it: the stored set, or the
  empty set for a key that is not there.
\<close>

definition children_of :: "planner \<Rightarrow> vertex \<Rightarrow> vertex set" where
  "children_of s u = (case parent_to_children_map s u of None \<Rightarrow> {} | Some cs \<Rightarrow> cs)"

text \<open>\<open>v \<in> children[u]\<close> exactly when \<open>parent[v] = u\<close>.\<close>

definition tree_inv :: "planner \<Rightarrow> bool" where
  "tree_inv s = (\<forall>u v. v \<in> children_of s u \<longleftrightarrow> child_to_parent_map s v = Some u)"

text \<open>The planner that a method leaves behind, whether it returned or raised.\<close>

fun result_state :: "('a, 's) result \<Rightarrow> 's" where
  "result_state (Return v s) = s"
| "result_state (Raise e s) = s"

subsection \<open>Example inputs\<close>

text \<open>
  A tree of two vertices, built by the planner's own methods on a fresh planner:
  the root \<open>(0, 0)\<close>, then the leaf \<open>(1, 0)\<close> below it at cost 1.
\<close>

definition leaf_tree :: planner where
  "leaf_tree =
     (case add_vertex (add_start_vertex (init_planner (5, 5) (0, 0)) (0, 0)) (1, 0) (0, 0) 1 of
        Return _ s \<Rightarrow> s
      | Raise _ s \<Rightarrow> s)"

text \<open>
  A queue in which the point \<open>(3, 4)\<close> was inserted with key 1 and later updated to
  key 2: the heap holds both entries, the key map the newer key.
\<close>

definition stale_queue :: planner where
  "stale_queue =
     (init_planner (5, 5) (9, 9))
       \<lparr>rewiringPQ := [(1, (3, 4)), (2, (3, 4))], queue_key_map := [(3, 4) \<mapsto> 2]\<rparr>"

text \<open>The open square with the corners \<open>(1, 1)\<close> and \<open>(3, 3)\<close>.\<close>

definition square_obstacle :: polygon where
  "square_obstacle =
     \<lparr>bounds = (1, 1, 3, 3),
      contains = (\<lambda>q. 1 < fst q \<and> fst q < 3 \<and> 1 < snd q \<and> snd q < 3)\<rparr>"

subsection \<open>The mask in the words of the specification\<close>

text \<open>
  The specification's mask: the entry at row \<open>y\<close> and column \<open>x\<close> is 0 exactly when
  some polygon of the collection contains the point \<open>(x, y)\<close>, and 1 otherwise.
\<close>

definition claimed_mask :: "polygon list \<Rightarrow> grid" where
  "claimed_mask new_obstacles r c =
     (if \<exists>obstacle \<in> set new_obstacles. contains obstacle (real c, real r) then 0 else 1)"

text \<open>
  Every integer point that the polygon contains lies in the range of its bounding
  box that the loops visit and indexes a cell of the array.
\<close>

definition grid_points_inside :: "nat \<times> nat \<Rightarrow> polygon \<Rightarrow> bool" where
  "grid_points_inside dims obstacle =
     (\<forall>x y. contains obstacle (real_of_int x, real_of_int y) \<longrightarrow>
        (case bounds obstacle of
           (minx, miny, maxx, maxy) \<Rightarrow>
             \<lfloor>minx\<rfloor> \<le> x \<and> x \<le> \<lceil>maxx\<rceil> \<and> \<lfloor>miny\<rfloor> \<le> y \<and> y \<le> \<lceil>maxy\<rceil>)
        \<and> 0 \<le> x \<and> x < int (snd dims) \<and> 0 \<le> y \<and> y < int (fst dims))"

section \<open>Properties\<close>

subsection \<open>The goal test\<close>

lemma reached_goal_threshold_unused:
  "reached_goal s x_new goal (Some t) = reached_goal s x_new goal None"
  by (simp add: reached_goal_def)

text \<open>
  Claim C5 asks that \<^verbatim>\<open>reached_goal(x, goal=g, threshold=t)\<close> hold exactly when the
  distance from \<open>x\<close> to \<open>g\<close> is below \<open>t\<close>. The method compares with
  \<^verbatim>\<open>self.goal_reached_thresh\<close> instead: on a planner built with the defaults (threshold
  1), the point \<open>(5, 5)\<close> reaches the goal \<open>(5, 5)\<close> for \<open>t = 0\<close>, although no
  distance is below 0.
\<close>

theorem reached_goal_threshold_zero:
  "reached_goal (init_planner (5, 5) (9, 9)) (5, 5) (Some (5, 5)) (Some 0)
   \<and> \<not> distance (5, 5) (5, 5) < 0"
  by (simp add: reached_goal_def init_planner_def distance_def)

subsection \<open>The buffer radius of the first build\<close>

text \<open>
  Claim C4 as stated (half the avoidance radius past the midpoint while no goal has
  been recorded) fails in iteration 2501 of 5000 of a planner built with the
  defaults: the radius is 0, and half of \<open>20 / 9\<close> is not.
\<close>

theorem build_buffer_radius_not_halved:
  "\<not> built_tree (init_planner (5, 5) (9, 9))
   \<and> real_of_int 2501 > real_of_int (iters (init_planner (5, 5) (9, 9))) / 2
   \<and> sample_free_radius (init_planner (5, 5) (9, 9))
        (Some (build_buffer_radius (init_planner (5, 5) (9, 9)) 2501 None))
      \<noteq> obstacle_avoidance_radius (init_planner (5, 5) (9, 9)) / 2"
  by (simp add: sample_free_radius_def build_buffer_radius_def init_planner_def)

text \<open>
  Claim C4, amended: in an iteration \<open>i\<close> past the midpoint (\<open>i > iters / 2\<close>) in which
  no goal-reaching vertex has been recorded, the buffer radius that \<^verbatim>\<open>sample_free\<close>
  works with is 0; in an iteration at or before the midpoint it is
  \<^verbatim>\<open>obstacle_avoidance_radius\<close>.
\<close>

theorem build_buffer_radius_zero:
  "(real_of_int i > real_of_int (iters s) / 2 \<and> final_pt = None
      \<longrightarrow> sample_free_radius s (Some (build_buffer_radius s i final_pt)) = 0)
   \<and> (\<not> real_of_int i > real_of_int (iters s) / 2
      \<longrightarrow> sample_free_radius s (Some (build_buffer_radius s i final_pt))
            = obstacle_avoidance_radius s)"
  by (simp add: sample_free_radius_def build_buffer_radius_def)

theorem build_buffer_radius_zero_witness:
  "sample_free_radius (init_planner (5, 5) (9, 9))
      (Some (build_buffer_radius (init_planner (5, 5) (9, 9)) 2501 None)) = 0
   \<and> sample_free_radius (init_planner (5, 5) (9, 9))
      (Some (build_buffer_radius (init_planner (5, 5) (9, 9)) 2500 None)) = 20 / 9"
  using build_buffer_radius_zero [where i = 2501 and s = "init_planner (5, 5) (9, 9)" and final_pt = None]
    build_buffer_radius_zero [where i = 2500 and s = "init_planner (5, 5) (9, 9)" and final_pt = None]
  by (simp add: init_planner_def)

subsection \<open>The queue key\<close>

text \<open>
  Claim C2: for every point, \<^verbatim>\<open>get_key\<close> raises instead of returning a key, and with
  it \<^verbatim>\<open>insertPQ\<close>, \<^verbatim>\<open>updatePQ\<close> and \<^verbatim>\<open>verify_queue\<close>: the keyword \<^verbatim>\<open>pt_source\<close>
  does not bind against the parameters of \<^verbatim>\<open>find_nearest\<close>, and no class defines
  \<^verbatim>\<open>get_cost_to_goal\<close>. The planner is left as it was.
\<close>

theorem get_key_raises:
  "bind_call find_nearest_params 1 [''pt_source''] = Some TypeError
   \<and> ''get_cost_to_goal'' \<notin> set planner_methods
   \<and> get_key s p = Raise TypeError s
   \<and> insertPQ s p = Raise TypeError s
   \<and> updatePQ s p = Raise TypeError s
   \<and> verify_queue s p = Raise TypeError s"
  by (simp add: bind_call_def find_nearest_params_def planner_methods_def get_key_def
      insertPQ_def updatePQ_def verify_queue_def)

subsection \<open>Observations\<close>

text \<open>
  Claim C9 asks for a \<^verbatim>\<open>MultiPolygon\<close> at every query. Whenever the intersection of the
  obstacles with the vision disc is neither a \<^verbatim>\<open>Polygon\<close> nor a \<^verbatim>\<open>MultiPolygon\<close> (a
  disc that touches an obstacle in one point, say), \<^verbatim>\<open>make_observations\<close> returns
  \<^verbatim>\<open>None\<close>.
\<close>

theorem make_observations_falls_through:
  assumes "\<forall>p. intersection obstacles (buffer position radius) \<noteq> Polygon p"
    and "\<forall>ps. intersection obstacles (buffer position radius) \<noteq> MultiPolygon ps"
  shows "make_observations buffer intersection obstacles position radius = None"
  using assms by (simp add: make_observations_def Let_def split: geometry.splits)

theorem make_observations_falls_through_witness:
  "make_observations
     (\<lambda>p r. Polygon \<lparr>bounds = (fst p - r, snd p - r, fst p + r, snd p + r),
                      contains = (\<lambda>q. distance q p < r)\<rparr>)
     (\<lambda>a b. Point (1, 0))
     (Polygon \<lparr>bounds = (1, - 1, 2, 1),
               contains = (\<lambda>q. 1 < fst q \<and> fst q < 2 \<and> - 1 < snd q \<and> snd q < 1)\<rparr>)
     (0, 0) 1 = None"
  using make_observations_falls_through
    [where intersection = "\<lambda>a b. Point (1, 0)" and position = "(0, 0)" and radius = 1]
  by simp

subsection \<open>The inconsistency queue\<close>

lemma fold_min_in_set: "fold min xs (x :: 'a :: linorder) \<in> set (x # xs)"
proof (induction xs arbitrary: x)
  case Nil
  show ?case by simp
next
  case (Cons y ys)
  have "fold min ys (min y x) \<in> set (min y x # ys)" by (rule Cons.IH)
  moreover have "min y x = y \<or> min y x = x" by (simp add: min_def)
  ultimately show ?case by auto
qed

lemma pq_get_length:
  assumes "pq_get q = Some (e, q')"
  shows "length q' < length q" and "e \<in> set q"
proof -
  from assms obtain a as where q: "q = a # as" and e: "e = fold min as a"
    and q': "q' = remove1 e (a # as)"
    by (auto simp: pq_get_def Let_def split: list.splits)
  from e show "e \<in> set q" unfolding q by (simp only: fold_min_in_set)
  then have "length (remove1 e (a # as)) = length (a # as) - 1"
    unfolding q by (simp only: length_remove1 if_True)
  then show "length q' < length q" unfolding q q' by simp
qed

lemma popPQ_loop_Entry:
  "\<exists>s'. popPQ_loop s key (Entry k p) = Raise Empty s'"
proof (induction "length (rewiringPQ s)" arbitrary: s k p rule: less_induct)
  case less
  show ?case
  proof (cases "pq_get (rewiringPQ s)")
    case None
    then show ?thesis by (simp add: key_map_get_def)
  next
    case (Some eq)
    obtain e q' where eq: "eq = (e, q')" by (cases eq)
    from Some eq have "length q' < length (rewiringPQ s)"
      by (simp add: pq_get_length)
    then have "\<exists>s'. popPQ_loop (s\<lparr>rewiringPQ := q'\<rparr>) key (Entry (fst e) (snd e)) = Raise Empty s'"
      using less [of "s\<lparr>rewiringPQ := q'\<rparr>"] by simp
    with Some eq show ?thesis by (simp add: key_map_get_def)
  qed
qed

text \<open>
  What \<^verbatim>\<open>popPQ\<close> returns was the least entry of the heap and live: a later entry is
  never returned.
\<close>

lemma popPQ_returns_live:
  assumes "popPQ s = Return v s'"
  shows "\<exists>k p q'. pq_get (rewiringPQ s) = Some ((k, p), q') \<and> v = Vertex p
           \<and> queue_key_map s p = Some k \<and> queue_key_map s' p = None"
proof (cases "pq_get (rewiringPQ s)")
  case None
  with assms show ?thesis by (simp add: popPQ_def)
next
  case (Some eq)
  obtain k p q' where eq: "eq = ((k, p), q')" by (cases eq) auto
  show ?thesis
  proof (cases "queue_key_map s p = Some k")
    case True
    with assms Some eq show ?thesis by (auto simp: popPQ_def key_map_get_def)
  next
    case False
    obtain e q'' where "pq_get q' = None \<or> pq_get q' = Some (e, q'')"
      by (cases "pq_get q'") auto
    moreover have "\<exists>s''. popPQ_loop (s\<lparr>rewiringPQ := q', rewiringPQ := q''\<rparr>) k (Entry (fst e) (snd e)) = Raise Empty s''"
      by (rule popPQ_loop_Entry)
    ultimately have "\<exists>s''. popPQ_loop (s\<lparr>rewiringPQ := q'\<rparr>) k (Vertex p) = Raise Empty s''"
      using False by (auto simp: key_map_get_def)
    with assms Some eq show ?thesis by (auto simp: popPQ_def)
  qed
qed

text \<open>
  Claim C3 asks \<^verbatim>\<open>popPQ\<close> to skip stale entries until it reaches a live one. On the
  queue \<open>stale_queue\<close> the entry \<open>(2, (3, 4))\<close> is live and the least entry
  \<open>(1, (3, 4))\<close> is stale: \<^verbatim>\<open>popPQ\<close> empties the heap and raises \<^verbatim>\<open>queue.Empty\<close>, the
  key map still holding the point.
\<close>

theorem popPQ_stale_top:
  "(2, (3, 4)) \<in> set (rewiringPQ stale_queue)
   \<and> queue_key_map stale_queue (3, 4) = Some 2
   \<and> popPQ stale_queue = Raise Empty (stale_queue\<lparr>rewiringPQ := []\<rparr>)"
  by (simp add: stale_queue_def popPQ_def pq_get_def key_map_get_def init_planner_def
      less_eq_prod_def less_prod_def min_def)

subsection \<open>The tree store\<close>

lemma leaf_tree_eq:
  "leaf_tree = (init_planner (5, 5) (0, 0))
     \<lparr>rrt_tree := {(0, 0), (1, 0)}, rrt_vertices := {(0, 0), (1, 0)},
      rrt_edges := {((0, 0), (1, 0))},
      child_to_parent_map := [(1, 0) \<mapsto> (0, 0)],
      parent_to_children_map := [(0, 0) \<mapsto> {(1, 0)}],
      cost_to_reach := [(0, 0) \<mapsto> 0, (1, 0) \<mapsto> 1]\<rparr>"
  by (auto simp: leaf_tree_def add_vertex_def add_start_vertex_def init_planner_def
      set_child_parent_def get_parent_def get_children_def set_cost_to_reach_def pt2tuple_def Let_def)

lemma tree_inv_leaf_tree: "tree_inv leaf_tree"
  by (auto simp: leaf_tree_eq tree_inv_def children_of_def init_planner_def split: option.splits if_splits)

lemma sever_connections_never_returns: "sever_connections s pt \<noteq> Return u s'"
  by (auto simp: sever_connections_def Let_def split: result.splits option.splits prod.splits)


text \<open>
  Claim C1 asks \<^verbatim>\<open>sever_connections(v)\<close> to end with \<open>cost[v] = +\<infinity>\<close>. On the leaf
  \<open>(1, 0)\<close> of \<open>leaf_tree\<close>, once \<^verbatim>\<open>get_children\<close> has made the leaf a key of the
  parent-to-children map, the method removes the vertex, its edge and its parent
  entry and then raises \<^verbatim>\<open>AttributeError\<close>: the cost of the leaf is still 1.
\<close>

theorem sever_connections_cost_unset:
  "(case sever_connections (snd (get_children leaf_tree (1, 0))) (1, 0) of
      Return _ s' \<Rightarrow> False
    | Raise e s' \<Rightarrow> e = AttributeError \<and> (1, 0) \<notin> rrt_vertices s' \<and> (1, 0) \<notin> rrt_tree s'
                     \<and> rrt_edges s' = {} \<and> child_to_parent_map s' (1, 0) = None
                     \<and> cost_to_reach s' (1, 0) = Some 1)"
  by (auto simp: leaf_tree_eq sever_connections_def set_child_parent_def get_parent_def get_children_def pt2tuple_def
      init_planner_def Let_def)

text \<open>
  The other mutations keep the invariant of the maps, whether they return or raise.
\<close>

lemma set_child_parent_Some:
  "\<exists>s'. set_child_parent s child (Some p) = Return () s'
      \<and> child_to_parent_map s' = (child_to_parent_map s)(child \<mapsto> p)
      \<and> (\<forall>u. children_of s' u =
            (if u = p then insert child (children_of s u)
             else if child_to_parent_map s child = Some u then children_of s u - {child}
             else children_of s u))"
  by (cases "child_to_parent_map s child")
    (auto simp: set_child_parent_def get_parent_def get_children_def pt2tuple_def Let_def
      children_of_def split: option.splits)

lemma tree_inv_set_child_parent:
  assumes "tree_inv s"
  shows "\<exists>s'. set_child_parent s child (Some p) = Return () s' \<and> tree_inv s'"
proof -
  obtain s' where r: "set_child_parent s child (Some p) = Return () s'"
    and c: "child_to_parent_map s' = (child_to_parent_map s)(child \<mapsto> p)"
    and k: "\<And>u. children_of s' u =
            (if u = p then insert child (children_of s u)
             else if child_to_parent_map s child = Some u then children_of s u - {child}
             else children_of s u)"
    using set_child_parent_Some [of s child p] by blast
  have "tree_inv s'"
    unfolding tree_inv_def
  proof (intro allI)
    fix u v
    from assms have inv: "v \<in> children_of s u \<longleftrightarrow> child_to_parent_map s v = Some u"
      unfolding tree_inv_def by blast
    show "v \<in> children_of s' u \<longleftrightarrow> child_to_parent_map s' v = Some u"
      unfolding c k using inv by auto
  qed
  with r show ?thesis by blast
qed


lemma tree_inv_cong:
  "child_to_parent_map s' = child_to_parent_map s \<Longrightarrow>
   parent_to_children_map s' = parent_to_children_map s \<Longrightarrow> tree_inv s' = tree_inv s"
  by (simp add: tree_inv_def children_of_def)

lemma get_children_snd:
  "child_to_parent_map (snd (get_children s u)) = child_to_parent_map s"
  "children_of (snd (get_children s u)) w = children_of s w"
  by (auto simp: get_children_def children_of_def split: option.splits)

lemma tree_inv_get_children: "tree_inv s \<Longrightarrow> tree_inv (snd (get_children s u))"
  unfolding tree_inv_def get_children_snd .

lemma tree_inv_init: "tree_inv (init_planner start goal)"
  by (simp add: tree_inv_def children_of_def init_planner_def)

lemma tree_inv_add_start_vertex: "tree_inv s \<Longrightarrow> tree_inv (add_start_vertex s x_start)"
  by (simp add: tree_inv_def children_of_def add_start_vertex_def set_cost_to_reach_def)

lemma tree_inv_add_vertex:
  assumes "tree_inv s"
  shows "\<exists>s'. add_vertex s pt parent cost = Return () s' \<and> tree_inv s'"
proof -
  let ?s1 = "s\<lparr>rrt_tree := rrt_tree s \<union> {pt}, rrt_vertices := insert pt (rrt_vertices s),
                rrt_edges := insert (parent, pt) (rrt_edges s)\<rparr>"
  have "tree_inv ?s1 = tree_inv s" by (rule tree_inv_cong) simp_all
  with assms have "tree_inv ?s1" by simp
  then obtain s2 where "set_child_parent ?s1 pt (Some parent) = Return () s2" and "tree_inv s2"
    using tree_inv_set_child_parent by blast
  moreover have "tree_inv (set_cost_to_reach s2 pt cost) = tree_inv s2"
    by (rule tree_inv_cong) (simp_all add: set_cost_to_reach_def)
  ultimately show ?thesis by (simp add: add_vertex_def)
qed

lemma tree_inv_reassign_parent:
  assumes "tree_inv s"
  shows "tree_inv (result_state (reassign_parent s pt parent cost allow_same_parent))"
proof (cases "child_to_parent_map s pt")
  case None
  with assms show ?thesis by (simp add: reassign_parent_def get_parent_def)
next
  case (Some prev_parent)
  show ?thesis
  proof (cases "prev_parent = parent")
    case True
    with Some assms show ?thesis by (simp add: reassign_parent_def get_parent_def)
  next
    case False
    let ?s1 = "s\<lparr>rrt_edges :=
                  insert (parent, pt) (rrt_edges s - {(prev_parent, pt)} - {(pt, prev_parent)})\<rparr>"
    have "tree_inv ?s1 = tree_inv s" by (rule tree_inv_cong) simp_all
    with assms have "tree_inv ?s1" by simp
    then obtain s2 where r: "set_child_parent ?s1 pt (Some parent) = Return () s2" and "tree_inv s2"
      using tree_inv_set_child_parent by blast
    then have i3: "tree_inv (snd (get_children s2 prev_parent))"
      by (simp add: tree_inv_get_children)
    have "tree_inv (set_cost_to_reach (snd (get_children s2 prev_parent)) pt cost)
            = tree_inv (snd (get_children s2 prev_parent))"
      by (rule tree_inv_cong) (simp_all add: set_cost_to_reach_def)
    with i3 Some False r show ?thesis
      by (simp add: reassign_parent_def get_parent_def split_beta Let_def)
  qed
qed

text \<open>
  Claim C7 asks that \<open>v \<in> children[u]\<close> exactly when \<open>parent[v] = u\<close> after every
  mutation, \<^verbatim>\<open>sever_connections\<close> among them. \<open>leaf_tree\<close> satisfies it. Severing
  its leaf \<open>(1, 0)\<close>, which is not a key of the parent-to-children map, takes the
  leaf out of \<open>children[(0, 0)]\<close>, skips the \<^verbatim>\<open>del\<close> and raises: the planner left
  behind has \<open>parent[(1, 0)] = (0, 0)\<close> and violates the invariant.
\<close>

theorem sever_leaf_breaks_inv:
  "tree_inv leaf_tree
   \<and> (case sever_connections leaf_tree (1, 0) of
        Return _ s' \<Rightarrow> False
      | Raise e s' \<Rightarrow> child_to_parent_map s' (1, 0) = Some (0, 0)
                      \<and> (1, 0) \<notin> children_of s' (0, 0) \<and> \<not> tree_inv s')"
  apply (rule conjI [OF tree_inv_leaf_tree])
  apply (auto simp: leaf_tree_eq sever_connections_def set_child_parent_def get_parent_def get_children_def pt2tuple_def
      children_of_def tree_inv_def init_planner_def Let_def)
  done

subsection \<open>Termination of the first build\<close>

lemma build_rrt_loop_no_goal:
  assumes "\<forall>i r s. case expand i r s of
             Raise e s' \<Rightarrow> False
           | Return None s' \<Rightarrow> True
           | Return (Some (x_new, c)) s' \<Rightarrow> \<not> reached_goal s' x_new (Some goal_pt) (Some t)"
  shows "build_rrt_loop expand goal_pt t fuel i None fc s = None"
proof (induction fuel arbitrary: i s)
  case 0
  show ?case by simp
next
  case (Suc fuel)
  let ?r = "sample_free_radius s (Some (build_buffer_radius s i None))"
  from assms have h: "case expand i ?r s of
             Raise e s' \<Rightarrow> False
           | Return None s' \<Rightarrow> True
           | Return (Some (x_new, c)) s' \<Rightarrow> \<not> reached_goal s' x_new (Some goal_pt) (Some t)"
    by blast
  show ?case
  proof (cases "expand i ?r s")
    case (Raise e s')
    with h show ?thesis by simp
  next
    case (Return v s')
    show ?thesis
    proof (cases v)
      case None
      with Return Suc.IH show ?thesis by simp
    next
      case (Some xc)
      obtain x c where xc: "xc = (x, c)" by (cases xc)
      from h Return Some xc have "\<not> reached_goal s' x (Some goal_pt) (Some t)" by simp
      with Return Some xc Suc.IH show ?thesis by simp
    qed
  qed
qed

lemma build_rrt_loop_recorded:
  assumes keep: "\<And>i r s v s'. expand i r s = Return v s' \<Longrightarrow> iters s' = iters s"
  shows "nat (iters s - i) < fuel \<Longrightarrow> build_rrt_loop expand goal_pt t fuel i (Some p) fc s \<noteq> None"
proof (induction fuel arbitrary: i p fc s)
  case 0
  then show ?case by simp
next
  case (Suc fuel)
  show ?case
  proof (cases "i < iters s")
    case False
    then show ?thesis by simp
  next
    case True
    let ?r = "sample_free_radius s (Some (build_buffer_radius s i (Some p)))"
    show ?thesis
    proof (cases "expand i ?r s")
      case (Raise e s')
      with True show ?thesis by simp
    next
      case (Return v s')
      from keep [OF Return] have it: "iters s' = iters s" .
      from True Suc.prems have less: "nat (iters s' - (i + 1)) < fuel" unfolding it by linarith
      have IH: "\<And>p fc. build_rrt_loop expand goal_pt t fuel (i + 1) (Some p) fc s' \<noteq> None"
        using Suc.IH [OF less] .
      show ?thesis
      proof (cases v)
        case None
        with Return True IH show ?thesis by simp
      next
        case (Some xc)
        obtain x c where xc: "xc = (x, c)" by (cases xc)
        from Return True Some xc IH show ?thesis by simp
      qed
    qed
  qed
qed

lemma build_rrt_loop_at_least_iters:
  assumes keep: "\<And>i r s v s'. expand i r s = Return v s' \<Longrightarrow>
                   iters s' = iters s \<and> built_tree s' = built_tree s"
  shows "\<not> built_tree s \<Longrightarrow> fuel \<le> nat (iters s - i) \<Longrightarrow>
         build_rrt_loop expand goal_pt t fuel i final_pt fc s \<noteq> Some (Return v s'')"
proof (induction fuel arbitrary: i final_pt fc s)
  case 0
  show ?case by simp
next
  case (Suc fuel)
  from Suc.prems have less: "i < iters s" by linarith
  let ?r = "sample_free_radius s (Some (build_buffer_radius s i final_pt))"
  show ?case
  proof (cases "expand i ?r s")
    case (Raise e s')
    with less show ?thesis by simp
  next
    case (Return w s')
    from keep [OF Return] have it: "iters s' = iters s" and bt: "\<not> built_tree s'"
      using Suc.prems(1) by simp_all
    from Suc.prems(2) have le: "fuel \<le> nat (iters s' - (i + 1))" unfolding it by linarith
    have IH: "\<And>final_pt fc. build_rrt_loop expand goal_pt t fuel (i + 1) final_pt fc s'
                \<noteq> Some (Return v s'')"
      using Suc.IH [OF bt le] .
    show ?thesis
    proof (cases w)
      case None
      with Return less IH show ?thesis by simp
    next
      case (Some xc)
      obtain x c where xc: "xc = (x, c)" by (cases xc)
      from Return less Some xc IH bt show ?thesis by simp
    qed
  qed
qed

text \<open>
  Claim C8 as stated (the build loop is capped by \<^verbatim>\<open>iters\<close> and ends on every input)
  fails in a world where every steered edge is blocked: whatever the number of
  passes granted, \<^verbatim>\<open>build_rrt_tree\<close> neither returns nor raises.
\<close>

theorem build_rrt_tree_blocked_world_runs_forever:
  "\<not> (\<exists>fuel r. build_rrt_tree (\<lambda>i r s. Return None s) fuel (init_planner (5, 5) (9, 9))
                   (9, 9) (5, 5) (Some 0) = Some r)"
  by (simp add: build_rrt_tree_def build_rrt_loop_no_goal)

text \<open>
  Claim C8, amended: the loop of \<^verbatim>\<open>build_rrt_tree\<close> runs while \<open>i < iters\<close> or no
  goal-reaching vertex has been recorded. As long as none is recorded nothing caps
  it: when no expansion raises or reaches the goal, it is still running after any
  number of passes. Once a vertex has been recorded at iteration \<open>i\<close>, it ends
  (returning or raising) within \<open>iters - i\<close> further passes and one more test of
  the loop condition. In the first build (\<^verbatim>\<open>built_tree\<close> false) it does not return
  before \<open>i\<close> has reached \<open>iters\<close>, a vertex recorded or not.
\<close>

theorem build_rrt_loop_capped_only_after_goal:
  "((\<forall>i r s. case expand i r s of
             Raise e s' \<Rightarrow> False
           | Return None s' \<Rightarrow> True
           | Return (Some (x_new, c)) s' \<Rightarrow> \<not> reached_goal s' x_new (Some goal_pt) (Some t))
      \<longrightarrow> (\<forall>fuel. build_rrt_loop expand goal_pt t fuel i None fc s = None))
   \<and> ((\<forall>i r s v s'. expand i r s = Return v s' \<longrightarrow> iters s' = iters s)
      \<longrightarrow> build_rrt_loop expand goal_pt t (Suc (nat (iters s - i))) i (Some p) fc s \<noteq> None)
   \<and> ((\<forall>i r s v s'. expand i r s = Return v s' \<longrightarrow>
           iters s' = iters s \<and> built_tree s' = built_tree s)
        \<and> \<not> built_tree s
      \<longrightarrow> (\<forall>fuel \<le> nat (iters s - i). \<forall>v s'.
             build_rrt_loop expand goal_pt t fuel i final_pt fc s \<noteq> Some (Return v s')))"
proof (intro conjI impI allI)
  fix fuel
  assume "\<forall>i r s. case expand i r s of
             Raise e s' \<Rightarrow> False
           | Return None s' \<Rightarrow> True
           | Return (Some (x_new, c)) s' \<Rightarrow> \<not> reached_goal s' x_new (Some goal_pt) (Some t)"
  then show "build_rrt_loop expand goal_pt t fuel i None fc s = None"
    by (rule build_rrt_loop_no_goal)
next
  assume "\<forall>i r s v s'. expand i r s = Return v s' \<longrightarrow> iters s' = iters s"
  then have keep: "\<And>i r s v s'. expand i r s = Return v s' \<Longrightarrow> iters s' = iters s" by blast
  show "build_rrt_loop expand goal_pt t (Suc (nat (iters s - i))) i (Some p) fc s \<noteq> None"
    using build_rrt_loop_recorded [where expand = expand and s = s and i = i
        and fuel = "Suc (nat (iters s - i))", OF keep]
    by simp
next
  fix fuel v s'
  assume h: "(\<forall>i r s v s'. expand i r s = Return v s' \<longrightarrow>
           iters s' = iters s \<and> built_tree s' = built_tree s) \<and> \<not> built_tree s"
    and le: "fuel \<le> nat (iters s - i)"
  from h have keep: "\<And>i r s v s'. expand i r s = Return v s' \<Longrightarrow>
                   iters s' = iters s \<and> built_tree s' = built_tree s" by blast
  from h have nb: "\<not> built_tree s" by simp
  show "build_rrt_loop expand goal_pt t fuel i final_pt fc s \<noteq> Some (Return v s')"
    using build_rrt_loop_at_least_iters [where expand = expand, OF keep nb le] .
qed

theorem build_rrt_loop_capped_only_after_goal_witness:
  "build_rrt_loop (\<lambda>i r s. Return None s) (5, 5) 0 9000 0 None Infinity
      (init_planner (5, 5) (9, 9)) = None
   \<and> build_rrt_loop (\<lambda>i r s. Return (Some ((5, 5), 1)) s) (5, 5) 0 3 0 None Infinity
        ((init_planner (5, 5) (9, 9))\<lparr>iters := 3\<rparr>)
      \<noteq> Some (Return (Some (5, 5), Finite 1) ((init_planner (5, 5) (9, 9))\<lparr>iters := 3\<rparr>))
   \<and> build_rrt_loop (\<lambda>i r s. Return (Some ((5, 5), 1)) s) (5, 5) 0
        (Suc (nat (iters ((init_planner (5, 5) (9, 9))\<lparr>iters := 3\<rparr>) - 1))) 1
        (Some (5, 5)) (Finite 1) ((init_planner (5, 5) (9, 9))\<lparr>iters := 3\<rparr>)
      \<noteq> None
   \<and> build_rrt_loop (\<lambda>i r s. Return (Some ((5, 5), 1)) s) (5, 5) 0 4 0 None Infinity
        ((init_planner (5, 5) (9, 9))\<lparr>iters := 3\<rparr>)
      = Some (Return (Some (5, 5), Finite 1) ((init_planner (5, 5) (9, 9))\<lparr>iters := 3\<rparr>))"
proof -
  let ?s = "(init_planner (5, 5) (9, 9))\<lparr>iters := 3\<rparr>"
  let ?e = "\<lambda>(i :: int) (r :: real) (s :: planner).
              Return (Some ((5 :: real, 5 :: real), 1 :: real)) s"
  note blocked = build_rrt_loop_capped_only_after_goal
    [where expand = "\<lambda>i r s. Return None s" and goal_pt = "(5, 5)" and t = 0 and i = 0
       and fc = Infinity and s = "init_planner (5, 5) (9, 9)" and p = "(5, 5)"]
  note recorded = build_rrt_loop_capped_only_after_goal
    [where expand = ?e and goal_pt = "(5, 5)" and t = 0 and i = 1
       and fc = "Finite 1" and s = ?s and p = "(5, 5)"]
  note running = build_rrt_loop_capped_only_after_goal
    [where expand = ?e and goal_pt = "(5, 5)" and t = 0 and i = 0 and final_pt = None
       and fc = Infinity and s = ?s]
  from blocked have "build_rrt_loop (\<lambda>i r s. Return None s) (5, 5) 0 9000 0 None Infinity
      (init_planner (5, 5) (9, 9)) = None"
    by simp
  moreover from running have "build_rrt_loop ?e (5, 5) 0 3 0 None Infinity ?s
      \<noteq> Some (Return (Some (5, 5), Finite 1) ?s)"
    by (simp add: init_planner_def)
  moreover from recorded have "build_rrt_loop ?e (5, 5) 0 (Suc (nat (iters ?s - 1))) 1
      (Some (5, 5)) (Finite 1) ?s \<noteq> None"
    by simp
  moreover have "build_rrt_loop ?e (5, 5) 0 4 0 None Infinity ?s
      = Some (Return (Some (5, 5), Finite 1) ?s)"
    by (simp add: numeral_eq_Suc reached_goal_def distance_def init_planner_def)
  ultimately show ?thesis by simp
qed

subsection \<open>The potential field\<close>

text \<open>
  Claim C10: with an obstacle collection of no polygons the planner, and so every
  entry of its potential field, is after \<^verbatim>\<open>update_potential_field\<close> what it was
  before. The library functions enter through two properties of theirs: the
  Gaussian filter of a constant array is a constant array, and the gradient of a
  constant array is zero.
\<close>

theorem update_potential_field_no_obstacles:
  assumes "\<forall>c. \<exists>c'. gaussian_filter blur_sigma (world_dims s) (\<lambda>r k. c) = (\<lambda>r k. c')"
    and "\<forall>c. gradient_fn (world_dims s) (\<lambda>r k. c) = (\<lambda>r k. 0, \<lambda>r k. 0)"
  shows "update_potential_field gaussian_filter gradient_fn s [] = Return () s"
proof -
  obtain c' where "gaussian_filter blur_sigma (world_dims s) (\<lambda>r k. 1 * obstacle_value) = (\<lambda>r k. c')"
    using assms(1) by blast
  moreover have "gradient_fn (world_dims s) (\<lambda>r k. c') = (\<lambda>r k. 0, \<lambda>r k. 0)"
    using assms(2) by blast
  moreover have "(\<lambda>y x k. if k = 0 then potential_field s y x k + 0
                         else if k = 1 then potential_field s y x k + 0
                         else potential_field s y x k) = potential_field s"
    by (intro ext) simp
  ultimately show ?thesis
    by (simp add: update_potential_field_def blur_input_def)
qed

theorem update_potential_field_no_obstacles_witness:
  "update_potential_field (\<lambda>sigma dims g. g)
     (\<lambda>dims g. (\<lambda>r c. g (Suc r) c - g r c, \<lambda>r c. g r (Suc c) - g r c))
     (init_planner (5, 5) (9, 9)) [] = Return () (init_planner (5, 5) (9, 9))"
  using update_potential_field_no_obstacles
    [where gaussian_filter = "\<lambda>sigma dims g. g"
       and gradient_fn = "\<lambda>dims g. (\<lambda>r c. g (Suc r) c - g r c, \<lambda>r c. g r (Suc c) - g r c)"
       and s = "init_planner (5, 5) (9, 9)"]
  by auto


lemma mask_assign_inside:
  "0 \<le> x \<Longrightarrow> x < int (snd dims) \<Longrightarrow> 0 \<le> y \<Longrightarrow> y < int (fst dims) \<Longrightarrow>
   mask_assign dims m y x = Inr (\<lambda>r c. if r = nat y \<and> c = nat x then 0 else m r c)"
  by (simp add: mask_assign_def np_index_def)

lemma mask_column_inside:
  assumes "\<forall>y \<in> set ys. contains ob (real_of_int x, real_of_int y) \<longrightarrow>
             0 \<le> x \<and> x < int (snd dims) \<and> 0 \<le> y \<and> y < int (fst dims)"
  shows "mask_column dims ob x ys m =
           Inr (\<lambda>r c. if \<exists>y \<in> set ys. contains ob (real_of_int x, real_of_int y)
                                      \<and> r = nat y \<and> c = nat x
                       then 0 else m r c)"
  using assms
proof (induction ys arbitrary: m)
  case Nil
  show ?case by simp
next
  case (Cons y ys)
  from Cons.prems have rest: "\<forall>y \<in> set ys. contains ob (real_of_int x, real_of_int y) \<longrightarrow>
             0 \<le> x \<and> x < int (snd dims) \<and> 0 \<le> y \<and> y < int (fst dims)" by simp
  note IH = Cons.IH [OF rest]
  show ?case
  proof (cases "contains ob (real_of_int x, real_of_int y)")
    case False
    then show ?thesis by (simp add: IH)
  next
    case True
    with Cons.prems have "0 \<le> x" "x < int (snd dims)" "0 \<le> y" "y < int (fst dims)" by auto
    then have "mask_assign dims m y x = Inr (\<lambda>r c. if r = nat y \<and> c = nat x then 0 else m r c)"
      by (rule mask_assign_inside)
    with True show ?thesis by (auto simp: IH intro!: ext)
  qed
qed

lemma mask_polygon_inside:
  assumes "\<forall>x \<in> set xs. \<forall>y \<in> set ys. contains ob (real_of_int x, real_of_int y) \<longrightarrow>
             0 \<le> x \<and> x < int (snd dims) \<and> 0 \<le> y \<and> y < int (fst dims)"
  shows "mask_polygon dims ob xs ys m =
           Inr (\<lambda>r c. if \<exists>x \<in> set xs. \<exists>y \<in> set ys. contains ob (real_of_int x, real_of_int y)
                                      \<and> r = nat y \<and> c = nat x
                       then 0 else m r c)"
  using assms
proof (induction xs arbitrary: m)
  case Nil
  show ?case by simp
next
  case (Cons x xs)
  from Cons.prems have col: "\<forall>y \<in> set ys. contains ob (real_of_int x, real_of_int y) \<longrightarrow>
             0 \<le> x \<and> x < int (snd dims) \<and> 0 \<le> y \<and> y < int (fst dims)" by simp
  from Cons.prems have rest: "\<forall>x \<in> set xs. \<forall>y \<in> set ys. contains ob (real_of_int x, real_of_int y) \<longrightarrow>
             0 \<le> x \<and> x < int (snd dims) \<and> 0 \<le> y \<and> y < int (fst dims)" by simp
  have "mask_polygon dims ob (x # xs) ys m =
          Inr (\<lambda>r c. if \<exists>x' \<in> set xs. \<exists>y \<in> set ys. contains ob (real_of_int x', real_of_int y)
                                      \<and> r = nat y \<and> c = nat x'
                      then 0
                      else if \<exists>y \<in> set ys. contains ob (real_of_int x, real_of_int y)
                                      \<and> r = nat y \<and> c = nat x
                      then 0 else m r c)"
    by (simp add: mask_column_inside [OF col] Cons.IH [OF rest])
  also have "(\<lambda>r c. if \<exists>x' \<in> set xs. \<exists>y \<in> set ys. contains ob (real_of_int x', real_of_int y)
                                      \<and> r = nat y \<and> c = nat x'
                      then 0
                      else if \<exists>y \<in> set ys. contains ob (real_of_int x, real_of_int y)
                                      \<and> r = nat y \<and> c = nat x
                      then 0 else m r c) =
             (\<lambda>r c. if \<exists>x' \<in> set (x # xs). \<exists>y \<in> set ys. contains ob (real_of_int x', real_of_int y)
                                      \<and> r = nat y \<and> c = nat x'
                      then 0 else m r c)"
    by (intro ext) (simp del: One_nat_def, blast)
  finally show ?case .
qed

lemma contains_grid_point:
  assumes "grid_points_inside dims ob" and "bounds ob = (minx, miny, maxx, maxy)"
  shows "(\<exists>x \<in> set [\<lfloor>minx\<rfloor> .. \<lceil>maxx\<rceil>]. \<exists>y \<in> set [\<lfloor>miny\<rfloor> .. \<lceil>maxy\<rceil>].
            contains ob (real_of_int x, real_of_int y) \<and> r = nat y \<and> c = nat x)
         \<longleftrightarrow> contains ob (real c, real r)"
proof
  assume "\<exists>x \<in> set [\<lfloor>minx\<rfloor> .. \<lceil>maxx\<rceil>]. \<exists>y \<in> set [\<lfloor>miny\<rfloor> .. \<lceil>maxy\<rceil>].
            contains ob (real_of_int x, real_of_int y) \<and> r = nat y \<and> c = nat x"
  then obtain x y where xy: "contains ob (real_of_int x, real_of_int y)" "r = nat y" "c = nat x"
    by blast
  with assms(1) have "0 \<le> x" "0 \<le> y" by (auto simp: grid_points_inside_def)
  with xy show "contains ob (real c, real r)" by simp
next
  assume c: "contains ob (real c, real r)"
  then have c': "contains ob (real_of_int (int c), real_of_int (int r))" by simp
  with assms have "\<lfloor>minx\<rfloor> \<le> int c \<and> int c \<le> \<lceil>maxx\<rceil> \<and> \<lfloor>miny\<rfloor> \<le> int r \<and> int r \<le> \<lceil>maxy\<rceil>"
    unfolding grid_points_inside_def by fastforce
  with c' show "\<exists>x \<in> set [\<lfloor>minx\<rfloor> .. \<lceil>maxx\<rceil>]. \<exists>y \<in> set [\<lfloor>miny\<rfloor> .. \<lceil>maxy\<rceil>].
            contains ob (real_of_int x, real_of_int y) \<and> r = nat y \<and> c = nat x"
    by (intro bexI [of _ "int c"] bexI [of _ "int r"]) auto
qed

lemma mask_obstacles_inside:
  assumes "\<forall>ob \<in> set obs. grid_points_inside dims ob"
  shows "mask_obstacles dims obs m =
           Inr (\<lambda>r c. if \<exists>ob \<in> set obs. contains ob (real c, real r) then 0 else m r c)"
  using assms
proof (induction obs arbitrary: m)
  case Nil
  show ?case by simp
next
  case (Cons ob obs)
  obtain minx miny maxx maxy where b: "bounds ob = (minx, miny, maxx, maxy)"
    by (cases "bounds ob") auto
  from Cons.prems have g: "grid_points_inside dims ob" by simp
  from Cons.prems have rest: "\<forall>ob \<in> set obs. grid_points_inside dims ob" by simp
  from g have inside: "\<forall>x \<in> set [\<lfloor>minx\<rfloor> .. \<lceil>maxx\<rceil>]. \<forall>y \<in> set [\<lfloor>miny\<rfloor> .. \<lceil>maxy\<rceil>].
      contains ob (real_of_int x, real_of_int y) \<longrightarrow>
        0 \<le> x \<and> x < int (snd dims) \<and> 0 \<le> y \<and> y < int (fst dims)"
    by (simp add: grid_points_inside_def)
  have "mask_polygon dims ob [\<lfloor>minx\<rfloor> .. \<lceil>maxx\<rceil>] [\<lfloor>miny\<rfloor> .. \<lceil>maxy\<rceil>] m =
          Inr (\<lambda>r c. if contains ob (real c, real r) then 0 else m r c)"
    unfolding mask_polygon_inside [OF inside] contains_grid_point [OF g b] ..
  then show ?case
    by (auto simp: b Cons.IH [OF rest] intro!: ext)
qed

lemma grid_points_inside_square: "grid_points_inside (4, 4) square_obstacle"
  unfolding grid_points_inside_def square_obstacle_def
  by (auto simp: floor_le_iff le_ceiling_iff)


text \<open>
  Claim C6 as stated (the blurred array is \<open>(1 - mask) \<cdot> 5\<close>) fails for the square
  obstacle on a 4 by 4 grid: the array handed to the Gaussian filter is 5 at the
  free cell \<open>(0, 0)\<close> and 0 at the covered cell \<open>(2, 2)\<close>, where \<open>(1 - mask) \<cdot> 5\<close>
  is 0 and 5.
\<close>

theorem blur_input_is_mask_not_complement:
  "(case blur_input (4, 4) [square_obstacle] of
      Inl e \<Rightarrow> False
    | Inr m \<Rightarrow> m 0 0 = 5 \<and> (1 - claimed_mask [square_obstacle] 0 0) * 5 = 0
               \<and> m 2 2 = 0 \<and> (1 - claimed_mask [square_obstacle] 2 2) * 5 = 5)"
  by (simp add: blur_input_def square_obstacle_def claimed_mask_def obstacle_value_def
      mask_assign_def np_index_def upto_rec1)

text \<open>
  Claim C6, amended: for every non-empty obstacle collection whose polygons contain
  only integer points that index cells of the array, \<^verbatim>\<open>update_potential_field\<close>
  builds the mask that is 0 exactly where some polygon contains the point \<open>(x, y)\<close>,
  forms \<open>m = mask \<cdot> 5\<close>, blurs \<open>m\<close> with \<open>\<sigma> = 3\<close>, takes \<open>(dy, dx)\<close> as the gradient
  of the blurred array and adds \<open>dx\<close> to component 0 and \<open>dy\<close> to component 1 of
  the field; no other field of the planner changes.
\<close>

theorem update_potential_field_adds_gradient:
  assumes "new_obstacles \<noteq> []"
    and "\<forall>obstacle \<in> set new_obstacles. grid_points_inside (world_dims s) obstacle"
  shows "update_potential_field gaussian_filter gradient_fn s new_obstacles =
           Return ()
             (s\<lparr>potential_field :=
                  (\<lambda>y x k.
                     if k = 0
                     then potential_field s y x k
                          + snd (gradient_fn (world_dims s)
                                   (gaussian_filter 3 (world_dims s)
                                      (\<lambda>r c. claimed_mask new_obstacles r c * 5))) y x
                     else if k = 1
                     then potential_field s y x k
                          + fst (gradient_fn (world_dims s)
                                   (gaussian_filter 3 (world_dims s)
                                      (\<lambda>r c. claimed_mask new_obstacles r c * 5))) y x
                     else potential_field s y x k)\<rparr>)"
proof -
  have "blur_input (world_dims s) new_obstacles = Inr (\<lambda>r c. claimed_mask new_obstacles r c * 5)"
    by (simp add: blur_input_def mask_obstacles_inside [OF assms(2)] claimed_mask_def
        obstacle_value_def)
  then show ?thesis
    by (simp add: update_potential_field_def blur_sigma_def split_beta Let_def)
qed

theorem update_potential_field_adds_gradient_witness:
  "[square_obstacle] \<noteq> []
   \<and> grid_points_inside (4, 4) square_obstacle
   \<and> (case update_potential_field (\<lambda>sigma dims g. g)
              (\<lambda>dims g. (\<lambda>r c. g (Suc r) c - g r c, \<lambda>r c. g r (Suc c) - g r c))
              ((init_planner (5, 5) (9, 9))\<lparr>world_dims := (4, 4)\<rparr>) [square_obstacle] of
         Raise e s' \<Rightarrow> False
       | Return u s' \<Rightarrow> potential_field s' 2 1 0 = - 5 \<and> potential_field s' 2 2 0 = 5
                         \<and> potential_field s' 1 2 1 = - 5 \<and> potential_field s' 0 0 0 = 0
                         \<and> rrt_vertices s' = {})"
  using update_potential_field_adds_gradient
    [where new_obstacles = "[square_obstacle]"
       and s = "(init_planner (5, 5) (9, 9))\<lparr>world_dims := (4, 4)\<rparr>"
       and gaussian_filter = "\<lambda>sigma dims g. g"
       and gradient_fn = "\<lambda>dims g. (\<lambda>r c. g (Suc r) c - g r c, \<lambda>r c. g r (Suc c) - g r c)"]
    grid_points_inside_square
  by (simp add: claimed_mask_def square_obstacle_def init_planner_def)

end
